theory Spec2Isabelle
  imports Complex_Main
begin

section \<open>Data model of \<open>src/App.tsx\<close>\<close>

text \<open>
  A JavaScript \<open>number\<close> as far as the image dimensions need it: \<open>NaN\<close>, the two
  infinities, and the finite values, each finite binary64 being the real number it
  denotes (\<open>-0\<close> and \<open>+0\<close> are both \<open>Fin 0\<close>; no operation of the program tells
  them apart). Comparisons with \<open>NaN\<close> are false, as in the language.
\<close>

datatype number = NaN | NegInf | Fin real | PosInf

fun isNaN :: "number \<Rightarrow> bool" where
  "isNaN NaN = True"
| "isNaN _ = False"

fun num_le :: "number \<Rightarrow> number \<Rightarrow> bool" where
  "num_le NaN _ = False"
| "num_le _ NaN = False"
| "num_le NegInf _ = True"
| "num_le (Fin a) NegInf = False"
| "num_le (Fin a) (Fin b) = (a \<le> b)"
| "num_le (Fin a) PosInf = True"
| "num_le PosInf PosInf = True"
| "num_le PosInf _ = False"

fun num_less :: "number \<Rightarrow> number \<Rightarrow> bool" where
  "num_less NaN _ = False"
| "num_less _ NaN = False"
| "num_less PosInf _ = False"
| "num_less NegInf NegInf = False"
| "num_less NegInf _ = True"
| "num_less (Fin a) NegInf = False"
| "num_less (Fin a) (Fin b) = (a < b)"
| "num_less (Fin a) PosInf = True"

text \<open>\<open>interface ImageConfig { url; width; height }\<close>\<close>

record ImageConfig =
  url :: string
  width :: number
  height :: number

text \<open>\<open>interface ImageState { left; right }\<close>\<close>

record ImageState =
  left :: "ImageConfig list"
  right :: "ImageConfig list"

text \<open>The union type \<open>'left' | 'right'\<close> of the handlers' \<open>eye\<close> argument, and
  \<open>'width' | 'height'\<close> of \<open>dimension\<close>.\<close>

datatype Eye = Left | Right

datatype Dimension = Width | Height

text \<open>\<open>prev[eye]\<close> and \<open>{ ...prev, [eye]: v }\<close>.\<close>

fun get_eye :: "ImageState \<Rightarrow> Eye \<Rightarrow> ImageConfig list" where
  "get_eye prev Left = left prev"
| "get_eye prev Right = right prev"

fun set_eye :: "ImageState \<Rightarrow> Eye \<Rightarrow> ImageConfig list \<Rightarrow> ImageState" where
  "set_eye prev Left v = prev\<lparr>left := v\<rparr>"
| "set_eye prev Right v = prev\<lparr>right := v\<rparr>"

text \<open>\<open>{ ...img, [dimension]: numValue }\<close>.\<close>

fun set_dimension :: "ImageConfig \<Rightarrow> Dimension \<Rightarrow> number \<Rightarrow> ImageConfig" where
  "set_dimension img Width v = img\<lparr>width := v\<rparr>"
| "set_dimension img Height v = img\<lparr>height := v\<rparr>"

fun get_dimension :: "ImageConfig \<Rightarrow> Dimension \<Rightarrow> number" where
  "get_dimension img Width = width img"
| "get_dimension img Height = height img"

text \<open>\<open>type PaperSize = 'A4' | 'A5'\<close>, \<open>interface PaperConfig\<close> and the table
  \<open>PAPER_CONFIGS\<close>. The fields \<open>width\<close> and \<open>height\<close> of a paper are named
  \<open>paperWidth\<close> and \<open>paperHeight\<close> here, the names being taken by \<open>ImageConfig\<close>.
  \<open>gridRows\<close> is a natural number: the table is the only source of a
  \<open>PaperConfig\<close>, and its entries are 4 and 2.\<close>

datatype PaperSize = A4 | A5

record PaperConfig =
  paperWidth :: nat
  paperHeight :: nat
  gridRows :: nat

fun PAPER_CONFIGS :: "PaperSize \<Rightarrow> PaperConfig" where
  "PAPER_CONFIGS A4 = \<lparr>paperWidth = 210, paperHeight = 297, gridRows = 4\<rparr>"
| "PAPER_CONFIGS A5 = \<lparr>paperWidth = 148, paperHeight = 210, gridRows = 2\<rparr>"

section \<open>The grid of the print area\<close>

text \<open>
  One element of \<open>Array(paperConfig.gridRows * 2).fill(null).map((_, index) => ...)\<close>:
  the three constants the callback computes. \<open>imageIndex\<close> is \<open>None\<close> where the
  JavaScript value is \<open>NaN\<close> (the remainder by the length 0 of an empty list), and
  \<open>image\<close> is \<open>None\<close> where \<open>images[imageIndex]\<close> is \<open>undefined\<close>. The cell renders
  its picture under \<open>image && ...\<close>, an object being truthy: exactly when \<open>image\<close>
  is not \<open>None\<close>.
\<close>

record Cell =
  isLeftPosition :: bool
  imageIndex :: "nat option"
  image :: "ImageConfig option"

definition cell :: "ImageState \<Rightarrow> nat \<Rightarrow> Cell" where
  "cell imgs index =
     (let isLeft = (index mod 2 = 0);
          images = (if isLeft then left imgs else right imgs);
          idx = (if length images = 0 then None
                 else Some ((index div 2) mod length images))
      in \<lparr>isLeftPosition = isLeft,
          imageIndex = idx,
          image = (case idx of None \<Rightarrow> None
                   | Some k \<Rightarrow> if k < length images then Some (images ! k) else None)\<rparr>)"

definition layout :: "PaperConfig \<Rightarrow> ImageState \<Rightarrow> Cell list" where
  "layout paperConfig imgs = map (cell imgs) [0 ..< gridRows paperConfig * 2]"

section \<open>The image lists\<close>

text \<open>
  \<open>Array.prototype.filter\<close> and \<open>Array.prototype.map\<close> with a callback that also
  receives the position of the element.
\<close>

definition Array_filter :: "('a \<Rightarrow> nat \<Rightarrow> bool) \<Rightarrow> 'a list \<Rightarrow> 'a list" where
  "Array_filter p xs = map fst (filter (\<lambda>(x, i). p x i) (zip xs [0 ..< length xs]))"

definition Array_map :: "('a \<Rightarrow> nat \<Rightarrow> 'b) \<Rightarrow> 'a list \<Rightarrow> 'b list" where
  "Array_map f xs = map (\<lambda>(x, i). f x i) (zip xs [0 ..< length xs])"

text \<open>
  A \<open>File\<close> of the browser: its declared media type, and its content, which only the
  \<open>FileReader\<close> looks at. The reader is the host's: \<open>readAsDataURL file\<close> is
  \<open>Some r\<close> when \<open>onload\<close> is called with \<open>e.target.result = r\<close>, and \<open>None\<close>
  when the read fails (\<open>onload\<close> is not called) or the result is \<open>null\<close>. It is a
  parameter of the model.
\<close>

record File =
  type :: string
  content :: string

text \<open>The initial state \<open>useState<ImageState>({ left: [], right: [] })\<close>.\<close>

definition initial :: ImageState where
  "initial = \<lparr>left = [], right = []\<rparr>"

text \<open>
  The callback \<open>reader.onload\<close> of \<open>handleImageUpload\<close>, with the updater it gives
  to \<open>setImages\<close>. \<open>if (e.target?.result)\<close> is a truthiness test: the empty string
  fails it as \<open>null\<close> does.
\<close>

definition onload :: "Eye \<Rightarrow> string option \<Rightarrow> ImageState \<Rightarrow> ImageState" where
  "onload eye result prev =
     (case result of
        None \<Rightarrow> prev
      | Some r \<Rightarrow>
          if r = [] then prev
          else set_eye prev eye
                 (get_eye prev eye @ [\<lparr>url = r, width = Fin 25, height = Fin 25\<rparr>]))"

text \<open>
  \<open>handleImageUpload\<close>. \<open>files\<close> is \<open>e.target.files\<close>, \<open>None\<close> for \<open>null\<close>;
  \<open>e.target.files?.[0]\<close> is \<open>undefined\<close> for \<open>null\<close> and for the empty list, and
  a \<open>File\<close> is truthy. The state is the one at the time the read completes.
\<close>

definition handleImageUpload ::
  "(File \<Rightarrow> string option) \<Rightarrow> Eye \<Rightarrow> File list option \<Rightarrow> ImageState \<Rightarrow> ImageState" where
  "handleImageUpload readAsDataURL eye files prev =
     (case files of
        None \<Rightarrow> prev
      | Some [] \<Rightarrow> prev
      | Some (file # _) \<Rightarrow>
          if type file \<noteq> ''image/png'' then prev
          else onload eye (readAsDataURL file) prev)"

text \<open>
  \<open>handleRemoveImage\<close>. \<open>index\<close> is a JavaScript number; an integer here, so that
  the positions below 0 are inputs as well.
\<close>

definition handleRemoveImage :: "Eye \<Rightarrow> int \<Rightarrow> ImageState \<Rightarrow> ImageState" where
  "handleRemoveImage eye index prev =
     set_eye prev eye (Array_filter (\<lambda>_ i. int i \<noteq> index) (get_eye prev eye))"

text \<open>
  \<open>handleSizeChange\<close>. \<open>parseFloat\<close> is the host's function from strings to
  numbers, a parameter of the model: what is proved holds for whatever it returns.
\<close>

definition handleSizeChange ::
  "(string \<Rightarrow> number) \<Rightarrow> Eye \<Rightarrow> int \<Rightarrow> Dimension \<Rightarrow> string \<Rightarrow> ImageState \<Rightarrow> ImageState" where
  "handleSizeChange parseFloat eye index dimension v prev =
     (let numValue = parseFloat v
      in if isNaN numValue \<or> num_le numValue (Fin 0) then prev
         else set_eye prev eye
                (Array_map (\<lambda>img i. if int i = index then set_dimension img dimension numValue
                                      else img)
                   (get_eye prev eye)))"

text \<open>
  The user's actions on the image lists, and the states they lead to. An upload
  carries what the \<open>FileReader\<close> delivers for it, so that every outcome of every
  read is an event; the state changes when the read completes.
\<close>

datatype Event =
    Upload Eye "File list option" "string option"
  | Remove Eye int
  | Resize Eye int Dimension string

fun step :: "(string \<Rightarrow> number) \<Rightarrow> ImageState \<Rightarrow> Event \<Rightarrow> ImageState" where
  "step pf st (Upload eye files result) = handleImageUpload (\<lambda>_. result) eye files st"
| "step pf st (Remove eye index) = handleRemoveImage eye index st"
| "step pf st (Resize eye index dimension v) = handleSizeChange pf eye index dimension v st"

definition run :: "(string \<Rightarrow> number) \<Rightarrow> Event list \<Rightarrow> ImageState" where
  "run pf evs = foldl (step pf) initial evs"

text \<open>The side that an operation on \<open>eye\<close> does not name.\<close>

fun other :: "Eye \<Rightarrow> Eye" where
  "other Left = Right"
| "other Right = Left"

text \<open>The invariant of the image lists: every record has a width and a height above 0.\<close>

definition positive_image :: "ImageConfig \<Rightarrow> bool" where
  "positive_image img = (num_less (Fin 0) (width img) \<and> num_less (Fin 0) (height img))"

definition positive :: "ImageState \<Rightarrow> bool" where
  "positive st = (list_all positive_image (left st) \<and> list_all positive_image (right st))"

section \<open>The resolution of the export\<close>

text \<open>
  A string is the list of its code units, those below 256. \<open>parseInt\<close> with no radix,
  after ECMAScript: leading white space is dropped (tab, line feed, vertical tab,
  form feed, carriage return, space, no-break space); a sign is read; a prefix
  \<open>0x\<close> or \<open>0X\<close> selects radix 16, otherwise the radix is 10; the longest run of
  digits of the radix is the number, and \<open>NaN\<close> (here \<open>None\<close>) is returned when that
  run is empty. The result is the integer read. JavaScript holds the binary64 nearest
  to it; the handler below only compares it with 0, 72 and 1200, which rounding to
  binary64 does not change.
\<close>

definition isStrWhiteSpaceChar :: "char \<Rightarrow> bool" where
  "isStrWhiteSpaceChar c = (of_char c \<in> {9, 10, 11, 12, 13, 32, 160 :: nat})"

definition digitValue :: "char \<Rightarrow> nat option" where
  "digitValue c =
     (let n = (of_char c :: nat)
      in if 48 \<le> n \<and> n \<le> 57 then Some (n - 48)
         else if 97 \<le> n \<and> n \<le> 122 then Some (n - 87)
         else if 65 \<le> n \<and> n \<le> 90 then Some (n - 55)
         else None)"

definition isRadixDigit :: "nat \<Rightarrow> char \<Rightarrow> bool" where
  "isRadixDigit R c = (case digitValue c of None \<Rightarrow> False | Some d \<Rightarrow> d < R)"

definition mathInt :: "nat \<Rightarrow> string \<Rightarrow> nat" where
  "mathInt R Z = foldl (\<lambda>a c. a * R + (case digitValue c of None \<Rightarrow> 0 | Some d \<Rightarrow> d)) 0 Z"

definition parseInt :: "string \<Rightarrow> int option" where
  "parseInt inputString =
     (let S = dropWhile isStrWhiteSpaceChar inputString;
          sign = (if S \<noteq> [] \<and> hd S = CHR ''-'' then - 1 else 1 :: int);
          S1 = (if S \<noteq> [] \<and> (hd S = CHR ''+'' \<or> hd S = CHR ''-'') then tl S else S);
          hex = (take 2 S1 = ''0x'' \<or> take 2 S1 = ''0X'');
          R = (if hex then 16 else 10);
          S2 = (if hex then drop 2 S1 else S1);
          Z = takeWhile (isRadixDigit R) S2
      in if Z = [] then None else Some (sign * int (mathInt R Z)))"

text \<open>\<open>x || y\<close> for a number \<open>x\<close>: \<open>NaN\<close> and 0 are falsy, every other number is
  truthy.\<close>

definition or_number :: "int option \<Rightarrow> int \<Rightarrow> int" where
  "or_number x y = (case x of None \<Rightarrow> y | Some n \<Rightarrow> if n = 0 then y else n)"

text \<open>
  The \<open>onChange\<close> handler of the DPI field: the value it gives to \<open>setDpi\<close>,
  \<open>Math.max(72, Math.min(1200, parseInt(e.target.value) || 300))\<close>.
\<close>

definition dpi_onChange :: "string \<Rightarrow> int" where
  "dpi_onChange v = max 72 (min 1200 (or_number (parseInt v) 300))"

text \<open>The DPI held in state after a sequence of edits of the field, from
  \<open>useState<number>(300)\<close>.\<close>

definition dpi_after :: "string list \<Rightarrow> int" where
  "dpi_after vs = foldl (\<lambda>dpi v. dpi_onChange v) 300 vs"

section \<open>The export\<close>










section \<open>Sample inputs\<close>

text \<open>
  Inputs of the examples: the values of the host's \<open>parseFloat\<close> at five strings
  (every other string is given \<open>NaN\<close> here; the examples use none of them), a
  reader that answers a file with a data URI made of its type and content, a state
  with two images on the left and one on the right, a sequence of events, the
  binary64 values of three quotients by 96 (of 100, 150 and 300; the last two are
  exact, and every other quotient is given \<open>NaN\<close> here), and a rasterizer that
  returns for the options of the source at one scale only, and throws otherwise.
\<close>

definition sample_parseFloat :: "string \<Rightarrow> number" where
  "sample_parseFloat s =
     (if s = ''30.5'' then Fin 30.5
      else if s = ''-1'' then Fin (- 1)
      else if s = ''0'' then Fin 0
      else if s = ''Infinity'' then PosInf
      else if s = ''abc'' then NaN
      else NaN)"

definition sample_reader :: "File \<Rightarrow> string option" where
  "sample_reader file = Some (''data:'' @ type file @ '';base64,'' @ content file)"

definition sample_state :: ImageState where
  "sample_state =
     \<lparr>left = [\<lparr>url = ''data:a'', width = Fin 25, height = Fin 25\<rparr>,
              \<lparr>url = ''data:b'', width = Fin 25, height = Fin 25\<rparr>],
      right = [\<lparr>url = ''data:c'', width = Fin 25, height = Fin 25\<rparr>]\<rparr>"

definition sample_events :: "Event list" where
  "sample_events =
     [Upload Left (Some [\<lparr>type = ''image/png'', content = ''AAAA''\<rparr>])
        (Some ''data:image/png;base64,AAAA''),
      Upload Right (Some [\<lparr>type = ''image/png'', content = ''BBBB''\<rparr>])
        (Some ''data:image/png;base64,BBBB''),
      Resize Left 0 Width ''30.5'',
      Resize Left 0 Height ''-1'',
      Upload Left (Some [\<lparr>type = ''text/plain'', content = ''CCCC''\<rparr>])
        (Some ''data:text/plain;base64,CCCC''),
      Remove Right 0]"




section \<open>Properties of the grid\<close>

lemma cell_side: "isLeftPosition (cell imgs i) = even i"
  by (simp add: cell_def Let_def even_iff_mod_2_eq_zero)

lemma cell_image_nonempty:
  assumes "xs = (if even i then left imgs else right imgs)" and "xs \<noteq> []"
  shows "imageIndex (cell imgs i) = Some ((i div 2) mod length xs)"
    and "image (cell imgs i) = Some (xs ! ((i div 2) mod length xs))"
  using assms by (simp_all add: cell_def Let_def even_iff_mod_2_eq_zero)

lemma cell_image_empty:
  assumes "(if even i then left imgs else right imgs) = []"
  shows "imageIndex (cell imgs i) = None" and "image (cell imgs i) = None"
  using assms by (simp_all add: cell_def Let_def even_iff_mod_2_eq_zero split: if_splits)

lemma layout_nth: "i < gridRows pc * 2 \<Longrightarrow> layout pc imgs ! i = cell imgs i"
  by (simp add: layout_def)

lemma layout_length: "length (layout pc imgs) = gridRows pc * 2"
  by (simp add: layout_def)

text \<open>
  C1. For every paper configuration and image set, and every cell index \<open>i\<close> of the
  layout (counted from 0): the cell is on the left side if \<open>i\<close> is even and on the
  right side if \<open>i\<close> is odd; if the list of that side has \<open>n > 0\<close> images, the
  cell gets the image at position \<open>floor (i / 2) mod n\<close> of that list; if the list
  is empty, the cell is empty.
\<close>

theorem layout_cell_assignment:
  assumes "i < gridRows pc * 2"
    and "side = (if even i then left imgs else right imgs)"
  shows "isLeftPosition (layout pc imgs ! i) = even i
       \<and> (0 < length side \<longrightarrow>
            imageIndex (layout pc imgs ! i) = Some ((i div 2) mod length side)
          \<and> image (layout pc imgs ! i) = Some (side ! ((i div 2) mod length side)))
       \<and> (length side = 0 \<longrightarrow>
            imageIndex (layout pc imgs ! i) = None
          \<and> image (layout pc imgs ! i) = None)"
proof -
  have c: "layout pc imgs ! i = cell imgs i"
    using assms(1) by (rule layout_nth)
  have "isLeftPosition (cell imgs i) = even i"
    by (rule cell_side)
  moreover have "imageIndex (cell imgs i) = Some ((i div 2) mod length side)
      \<and> image (cell imgs i) = Some (side ! ((i div 2) mod length side))"
    if "0 < length side"
    using cell_image_nonempty [OF assms(2)] that by simp
  moreover have "imageIndex (cell imgs i) = None \<and> image (cell imgs i) = None"
    if "length side = 0"
    using cell_image_empty [of i imgs] that assms(2) by simp
  ultimately show ?thesis
    unfolding c by blast
qed

theorem layout_cell_assignment_witness:
  "(let imgs = \<lparr>left = [\<lparr>url = ''data:a'', width = Fin 25, height = Fin 25\<rparr>], right = []\<rparr>;
        cells = layout (PAPER_CONFIGS A4) imgs
    in (2::nat) < gridRows (PAPER_CONFIGS A4) * 2
     \<and> isLeftPosition (cells ! 2)
     \<and> imageIndex (cells ! 2) = Some 0
     \<and> image (cells ! 2) = Some \<lparr>url = ''data:a'', width = Fin 25, height = Fin 25\<rparr>
     \<and> (3::nat) < gridRows (PAPER_CONFIGS A4) * 2
     \<and> \<not> isLeftPosition (cells ! 3)
     \<and> imageIndex (cells ! 3) = None
     \<and> image (cells ! 3) = None)"
proof -
  let ?img = "\<lparr>url = ''data:a'', width = Fin 25, height = Fin 25\<rparr>"
  let ?imgs = "\<lparr>left = [?img], right = []\<rparr>"
  have b2: "(2::nat) < gridRows (PAPER_CONFIGS A4) * 2" by simp
  have b3: "(3::nat) < gridRows (PAPER_CONFIGS A4) * 2" by simp
  have s2: "[?img] = (if even (2::nat) then left ?imgs else right ?imgs)" by simp
  have s3: "[] = (if even (3::nat) then left ?imgs else right ?imgs)" by simp
  show ?thesis
    using layout_cell_assignment [OF b2 s2] layout_cell_assignment [OF b3 s3] b2 b3
    by (simp add: Let_def)
qed

text \<open>
  C2. For every paper configuration and every image set (both sides may be empty),
  the layout has exactly \<open>gridRows * 2\<close> cells: 8 for the preset A4 and 4 for the
  preset A5.
\<close>

theorem layout_cell_count:
  "length (layout pc imgs) = gridRows pc * 2
 \<and> length (layout pc initial) = gridRows pc * 2
 \<and> length (layout (PAPER_CONFIGS A4) imgs) = 8
 \<and> length (layout (PAPER_CONFIGS A5) imgs) = 4"
  by (simp add: layout_length)

section \<open>Properties of the image lists\<close>

lemma get_eye_set_eye: "get_eye (set_eye st eye v) eye = v"
  by (cases eye) simp_all

lemma get_eye_set_eye_other: "get_eye (set_eye st eye v) (other eye) = get_eye st (other eye)"
  by (cases eye) simp_all

lemma set_eye_get_eye: "set_eye st eye (get_eye st eye) = st"
  by (cases eye) simp_all

lemma positive_eye: "positive st = (\<forall>eye. list_all positive_image (get_eye st eye))"
proof
  assume "positive st"
  then show "\<forall>eye. list_all positive_image (get_eye st eye)"
    by (auto simp: positive_def intro: Eye.induct)
next
  assume a: "\<forall>eye. list_all positive_image (get_eye st eye)"
  from a [rule_format, of Left] a [rule_format, of Right] show "positive st"
    by (simp add: positive_def)
qed

lemma positive_set_eye:
  assumes "positive st" and "list_all positive_image v"
  shows "positive (set_eye st eye v)"
  using assms by (cases eye) (simp_all add: positive_def)

lemma number_cases: "(\<not> isNaN x \<and> \<not> num_le x (Fin 0)) = num_less (Fin 0) x"
  by (cases x) auto

lemma Array_map_length: "length (Array_map f xs) = length xs"
  by (simp add: Array_map_def)

lemma Array_map_nth: "i < length xs \<Longrightarrow> Array_map f xs ! i = f (xs ! i) i"
  by (simp add: Array_map_def)

lemma Array_map_at:
  "Array_map (\<lambda>x i. if int i = index then g x else x) xs =
     (if 0 \<le> index \<and> index < int (length xs) then xs[nat index := g (xs ! nat index)] else xs)"
  by (rule nth_equalityI) (auto simp: Array_map_length Array_map_nth nth_list_update)

lemma handleSizeChange_rejected:
  assumes "isNaN (pf v) \<or> num_le (pf v) (Fin 0)"
  shows "handleSizeChange pf eye index d v st = st"
  using assms by (simp add: handleSizeChange_def)

lemma handleSizeChange_accepted:
  assumes "num_less (Fin 0) (pf v)"
  shows "handleSizeChange pf eye index d v st =
     set_eye st eye
       (if 0 \<le> index \<and> index < int (length (get_eye st eye))
        then (get_eye st eye)[nat index := set_dimension (get_eye st eye ! nat index) d (pf v)]
        else get_eye st eye)"
proof -
  have "\<not> (isNaN (pf v) \<or> num_le (pf v) (Fin 0))"
    using assms number_cases [of "pf v"] by simp
  then show ?thesis
    by (simp add: handleSizeChange_def Array_map_at)
qed

lemma handleSizeChange_outside:
  assumes "index < 0 \<or> int (length (get_eye st eye)) \<le> index"
  shows "handleSizeChange pf eye index d v st = st"
proof (cases "num_less (Fin 0) (pf v)")
  case True
  then show ?thesis
    using assms by (auto simp: handleSizeChange_accepted set_eye_get_eye)
next
  case False
  then have "isNaN (pf v) \<or> num_le (pf v) (Fin 0)"
    using number_cases [of "pf v"] by blast
  then show ?thesis by (rule handleSizeChange_rejected)
qed

lemma positive_set_dimension:
  assumes "positive_image img" and "num_less (Fin 0) x"
  shows "positive_image (set_dimension img d x)"
  using assms by (cases d) (simp_all add: positive_image_def)

lemma list_all_update:
  assumes "list_all P xs" and "P x"
  shows "list_all P (xs[k := x])"
  using assms by (auto simp: list_all_iff dest: set_update_subset_insert [THEN subsetD])

lemma handleSizeChange_positive:
  assumes "positive st"
  shows "positive (handleSizeChange pf eye index d v st)"
proof (cases "num_less (Fin 0) (pf v)")
  case False
  then have "isNaN (pf v) \<or> num_le (pf v) (Fin 0)"
    using number_cases [of "pf v"] by blast
  then show ?thesis
    using assms by (simp add: handleSizeChange_rejected)
next
  case True
  have all: "list_all positive_image (get_eye st eye)"
    using assms by (simp add: positive_eye)
  show ?thesis
  proof (cases "0 \<le> index \<and> index < int (length (get_eye st eye))")
    case False
    then show ?thesis
      using assms by (auto simp: handleSizeChange_outside)
  next
    case inb: True
    then have "nat index < length (get_eye st eye)"
      by (simp add: nat_less_iff)
    then have "positive_image (get_eye st eye ! nat index)"
      using all by (simp add: list_all_length)
    then have "positive_image (set_dimension (get_eye st eye ! nat index) d (pf v))"
      using True by (rule positive_set_dimension)
    with all have "list_all positive_image
        ((get_eye st eye)[nat index := set_dimension (get_eye st eye ! nat index) d (pf v)])"
      by (rule list_all_update)
    then show ?thesis
      using assms inb by (simp add: handleSizeChange_accepted [where pf = pf and v = v, OF True] positive_set_eye)
  qed
qed

lemma filter_zip_all:
  assumes "\<forall>i \<in> set is. q i"
  shows "filter (\<lambda>(x, i). q i) (zip xs is) = zip xs is"
proof -
  have "\<forall>p \<in> set (zip xs is). (\<lambda>(x, i). q i) p"
    using assms by (auto dest: set_zip_rightD)
  then show ?thesis by (simp add: filter_id_conv)
qed

lemma Array_filter_out:
  assumes "index < 0 \<or> int (length xs) \<le> index"
  shows "Array_filter (\<lambda>_ i. int i \<noteq> index) xs = xs"
proof -
  have "\<forall>i \<in> set [0 ..< length xs]. int i \<noteq> index" using assms by auto
  then have "filter (\<lambda>(x, i). int i \<noteq> index) (zip xs [0 ..< length xs]) = zip xs [0 ..< length xs]"
    by (rule filter_zip_all)
  then show ?thesis by (simp add: Array_filter_def)
qed

lemma Array_filter_in:
  assumes "k < length xs"
  shows "Array_filter (\<lambda>_ i. int i \<noteq> int k) xs = take k xs @ drop (Suc k) xs"
proof -
  let ?q = "\<lambda>i. int i \<noteq> int k"
  let ?n = "length xs"
  have xs: "xs = take k xs @ (xs ! k) # drop (Suc k) xs"
    using assms by (simp add: id_take_nth_drop)
  have ns: "[0 ..< ?n] = [0 ..< k] @ k # [Suc k ..< ?n]"
    using assms upt_add_eq_append [of 0 k "?n - k"] by (simp add: upt_conv_Cons)
  have z: "zip xs [0 ..< ?n] =
      zip (take k xs) [0 ..< k] @ (xs ! k, k) # zip (drop (Suc k) xs) [Suc k ..< ?n]"
    using assms by (subst xs, subst ns) (simp add: zip_append)
  have a: "filter (\<lambda>(x, i). ?q i) (zip (take k xs) [0 ..< k]) = zip (take k xs) [0 ..< k]"
    by (rule filter_zip_all) auto
  have b: "filter (\<lambda>(x, i). ?q i) (zip (drop (Suc k) xs) [Suc k ..< ?n])
      = zip (drop (Suc k) xs) [Suc k ..< ?n]"
    by (rule filter_zip_all) auto
  have "Array_filter (\<lambda>_ i. ?q i) xs =
      map fst (zip (take k xs) [0 ..< k]) @ map fst (zip (drop (Suc k) xs) [Suc k ..< ?n])"
    unfolding Array_filter_def z using a b by simp
  also have "\<dots> = take k xs @ drop (Suc k) xs"
    using assms by (simp add: min_def)
  finally show ?thesis .
qed

lemma Array_filter_subset: "set (Array_filter p xs) \<subseteq> set xs"
  by (auto simp: Array_filter_def dest: set_zip_leftD)

lemma handleRemoveImage_positive:
  assumes "positive st"
  shows "positive (handleRemoveImage eye index st)"
proof -
  have "list_all positive_image (get_eye st eye)"
    using assms by (simp add: positive_eye)
  then have "list_all positive_image (Array_filter (\<lambda>_ i. int i \<noteq> index) (get_eye st eye))"
    using Array_filter_subset [of "\<lambda>_ i. int i \<noteq> index" "get_eye st eye"]
    by (auto simp: list_all_iff)
  with assms show ?thesis
    by (simp add: handleRemoveImage_def positive_set_eye)
qed

lemma onload_positive:
  assumes "positive st"
  shows "positive (onload eye result st)"
proof -
  have "list_all positive_image (get_eye st eye)"
    using assms by (simp add: positive_eye)
  then have "list_all positive_image
      (get_eye st eye @ [\<lparr>url = r, width = Fin 25, height = Fin 25\<rparr>])" for r
    by (simp add: positive_image_def)
  with assms show ?thesis
    by (simp add: onload_def positive_set_eye split: option.splits)
qed

lemma handleImageUpload_positive:
  assumes "positive st"
  shows "positive (handleImageUpload rd eye files st)"
  using assms by (simp add: handleImageUpload_def onload_positive split: option.splits list.splits)

lemma step_positive: "positive st \<Longrightarrow> positive (step pf st ev)"
  by (cases ev)
    (simp_all add: handleImageUpload_positive handleRemoveImage_positive handleSizeChange_positive)

lemma foldl_step_positive: "positive st \<Longrightarrow> positive (foldl (step pf) st evs)"
  by (induction evs arbitrary: st) (simp_all add: step_positive)

lemma run_positive: "positive (run pf evs)"
  unfolding run_def by (rule foldl_step_positive) (simp add: positive_def initial_def)

lemma handleSizeChange_in_bounds:
  assumes "0 \<le> index" and "index < int (length (get_eye st eye))" and "num_less (Fin 0) (pf v)"
  shows "get_eye (handleSizeChange pf eye index d v st) eye =
      (get_eye st eye)[nat index := set_dimension (get_eye st eye ! nat index) d (pf v)]"
    and "get_eye (handleSizeChange pf eye index d v st) (other eye) = get_eye st (other eye)"
  using assms
  by (simp_all add: handleSizeChange_accepted [where pf = pf and v = v] get_eye_set_eye
      get_eye_set_eye_other)

lemma get_set_dimension: "get_dimension (set_dimension img d x) d = x"
  by (cases d) simp_all

lemma get_set_dimension_other:
  "d' \<noteq> d \<Longrightarrow> get_dimension (set_dimension img d x) d' = get_dimension img d'"
  by (cases d; cases d') simp_all

lemma url_set_dimension: "url (set_dimension img d x) = url img"
  by (cases d) simp_all

lemma handleRemoveImage_eye:
  "get_eye (handleRemoveImage eye index st) eye
     = Array_filter (\<lambda>_ i. int i \<noteq> index) (get_eye st eye)"
  and handleRemoveImage_other:
  "get_eye (handleRemoveImage eye index st) (other eye) = get_eye st (other eye)"
  by (simp_all add: handleRemoveImage_def get_eye_set_eye get_eye_set_eye_other)

lemma onload_loaded:
  assumes "r \<noteq> []"
  shows "onload eye (Some r) st =
     set_eye st eye (get_eye st eye @ [\<lparr>url = r, width = Fin 25, height = Fin 25\<rparr>])"
  using assms by (simp add: onload_def)

lemma onload_cases:
  "onload eye result st = st
 \<or> (\<exists>r. onload eye result st =
        set_eye st eye (get_eye st eye @ [\<lparr>url = r, width = Fin 25, height = Fin 25\<rparr>]))"
  by (auto simp: onload_def split: option.splits)

lemma onload_other: "get_eye (onload eye result st) (other eye) = get_eye st (other eye)"
  by (simp add: onload_def get_eye_set_eye_other split: option.splits)

lemma handleImageUpload_first:
  "handleImageUpload rd eye (Some (f # rest)) st =
     (if type f \<noteq> ''image/png'' then st else onload eye (rd f) st)"
  by (simp add: handleImageUpload_def)

lemma handleImageUpload_cases:
  "handleImageUpload rd eye files st = st
 \<or> (\<exists>result. handleImageUpload rd eye files st = onload eye result st)"
  by (auto simp: handleImageUpload_def split: option.splits list.splits)

lemma upt_1: "[0 ..< Suc 0] = [0]"
  by (simp add: upt_conv_Cons)

subsection \<open>Upload\<close>

text \<open>
  C7. For every side and every uploaded file (the first of the selection): if its
  declared media type is not exactly \<open>image/png\<close>, the upload adds no record and
  the state is unchanged; if it is exactly \<open>image/png\<close> and the read succeeds (the
  reader delivers a data URI \<open>r\<close>, which is never the empty string), exactly one
  record, of width 25 and height 25, is appended at the end of the list of the named
  side, and the list of the other side is unchanged.
\<close>

theorem handleImageUpload_png_only:
  "(type f \<noteq> ''image/png'' \<longrightarrow> handleImageUpload rd eye (Some (f # rest)) st = st)
 \<and> (type f = ''image/png'' \<and> rd f = Some r \<and> r \<noteq> [] \<longrightarrow>
      (let st' = handleImageUpload rd eye (Some (f # rest)) st
       in get_eye st' eye = get_eye st eye @ [\<lparr>url = r, width = Fin 25, height = Fin 25\<rparr>]
        \<and> length (get_eye st' eye) = length (get_eye st eye) + 1
        \<and> get_eye st' (other eye) = get_eye st (other eye)))"
proof (intro conjI impI)
  assume "type f \<noteq> ''image/png''"
  then show "handleImageUpload rd eye (Some (f # rest)) st = st"
    by (simp add: handleImageUpload_first)
next
  assume a: "type f = ''image/png'' \<and> rd f = Some r \<and> r \<noteq> []"
  then have "handleImageUpload rd eye (Some (f # rest)) st = onload eye (Some r) st"
    by (simp add: handleImageUpload_first)
  also have "\<dots> = set_eye st eye
      (get_eye st eye @ [\<lparr>url = r, width = Fin 25, height = Fin 25\<rparr>])"
    using a by (simp add: onload_loaded)
  finally show "let st' = handleImageUpload rd eye (Some (f # rest)) st
       in get_eye st' eye = get_eye st eye @ [\<lparr>url = r, width = Fin 25, height = Fin 25\<rparr>]
        \<and> length (get_eye st' eye) = length (get_eye st eye) + 1
        \<and> get_eye st' (other eye) = get_eye st (other eye)"
    by (simp add: get_eye_set_eye get_eye_set_eye_other)
qed

theorem handleImageUpload_png_only_witness:
  "handleImageUpload sample_reader Right
      (Some [\<lparr>type = ''image/jpeg'', content = ''AAAA''\<rparr>]) sample_state = sample_state
 \<and> get_eye (handleImageUpload sample_reader Right
      (Some [\<lparr>type = ''image/png'', content = ''AAAA''\<rparr>]) sample_state) Right =
      [\<lparr>url = ''data:c'', width = Fin 25, height = Fin 25\<rparr>,
       \<lparr>url = ''data:image/png;base64,AAAA'', width = Fin 25, height = Fin 25\<rparr>]
 \<and> get_eye (handleImageUpload sample_reader Right
      (Some [\<lparr>type = ''image/png'', content = ''AAAA''\<rparr>]) sample_state) Left =
      get_eye sample_state Left"
  using handleImageUpload_png_only
      [where f = "\<lparr>type = ''image/jpeg'', content = ''AAAA''\<rparr>" and rd = sample_reader
         and eye = Right and rest = "[]" and st = sample_state]
    handleImageUpload_png_only
      [where f = "\<lparr>type = ''image/png'', content = ''AAAA''\<rparr>" and rd = sample_reader
         and r = "''data:image/png;base64,AAAA''" and eye = Right and rest = "[]"
         and st = sample_state]
  by (simp add: Let_def sample_reader_def sample_state_def)

text \<open>
  C10. For every upload event at most one record is appended, however many files the
  selection holds: only the first file is examined and read. The result is decided
  by the type of the first file and by what the reader delivers for it (the state
  is unchanged, or the record appended holds the data URI read from the first
  file); it is the result of the selection of that file alone, and depends on the
  reader at that file only. The files after the first are ignored, and a selection
  with no file changes nothing.
\<close>

theorem handleImageUpload_first_file_only:
  assumes "rd f = rd' f"
  shows "handleImageUpload rd eye (Some (f # rest)) st =
           (if type f \<noteq> ''image/png'' then st else onload eye (rd f) st)
       \<and> handleImageUpload rd eye (Some (f # rest)) st = handleImageUpload rd' eye (Some [f]) st
       \<and> (handleImageUpload rd eye (Some (f # rest)) st = st
          \<or> (\<exists>r. type f = ''image/png'' \<and> rd f = Some r \<and> r \<noteq> []
                 \<and> handleImageUpload rd eye (Some (f # rest)) st =
                     set_eye st eye
                       (get_eye st eye @ [\<lparr>url = r, width = Fin 25, height = Fin 25\<rparr>])))
       \<and> handleImageUpload rd eye None st = st
       \<and> handleImageUpload rd eye (Some []) st = st
       \<and> (get_eye (handleImageUpload rd eye files st) eye = get_eye st eye
          \<or> (\<exists>r. get_eye (handleImageUpload rd eye files st) eye =
                 get_eye st eye @ [\<lparr>url = r, width = Fin 25, height = Fin 25\<rparr>]))
       \<and> get_eye (handleImageUpload rd eye files st) (other eye) = get_eye st (other eye)"
proof (intro conjI)
  show first: "handleImageUpload rd eye (Some (f # rest)) st =
      (if type f \<noteq> ''image/png'' then st else onload eye (rd f) st)"
    by (rule handleImageUpload_first)
  show "handleImageUpload rd eye (Some (f # rest)) st = handleImageUpload rd' eye (Some [f]) st"
    using assms by (simp add: handleImageUpload_first)
  show "handleImageUpload rd eye (Some (f # rest)) st = st
      \<or> (\<exists>r. type f = ''image/png'' \<and> rd f = Some r \<and> r \<noteq> []
             \<and> handleImageUpload rd eye (Some (f # rest)) st =
                 set_eye st eye
                   (get_eye st eye @ [\<lparr>url = r, width = Fin 25, height = Fin 25\<rparr>]))"
  proof (cases "type f = ''image/png''")
    case False
    then show ?thesis by (simp add: first)
  next
    case png: True
    show ?thesis
    proof (cases "rd f")
      case None
      then show ?thesis using png by (simp add: first onload_def)
    next
      case (Some r)
      show ?thesis
      proof (cases "r = []")
        case True
        then show ?thesis using png Some by (simp add: first onload_def)
      next
        case False
        then have "handleImageUpload rd eye (Some (f # rest)) st =
            set_eye st eye (get_eye st eye @ [\<lparr>url = r, width = Fin 25, height = Fin 25\<rparr>])"
          using png Some by (simp add: first onload_loaded)
        with png Some False show ?thesis by blast
      qed
    qed
  qed
  show "handleImageUpload rd eye None st = st"
    by (simp add: handleImageUpload_def)
  show "handleImageUpload rd eye (Some []) st = st"
    by (simp add: handleImageUpload_def)
  show "get_eye (handleImageUpload rd eye files st) eye = get_eye st eye
      \<or> (\<exists>r. get_eye (handleImageUpload rd eye files st) eye =
             get_eye st eye @ [\<lparr>url = r, width = Fin 25, height = Fin 25\<rparr>])"
    using handleImageUpload_cases [of rd eye files st] onload_cases [of eye _ st]
    by (metis get_eye_set_eye)
  show "get_eye (handleImageUpload rd eye files st) (other eye) = get_eye st (other eye)"
    using handleImageUpload_cases [of rd eye files st] onload_other [of eye _ st]
    by metis
qed

theorem handleImageUpload_first_file_only_witness:
  "handleImageUpload sample_reader Left
      (Some [\<lparr>type = ''image/png'', content = ''AAAA''\<rparr>,
             \<lparr>type = ''image/png'', content = ''BBBB''\<rparr>,
             \<lparr>type = ''image/jpeg'', content = ''CCCC''\<rparr>]) sample_state
   = \<lparr>left = [\<lparr>url = ''data:a'', width = Fin 25, height = Fin 25\<rparr>,
              \<lparr>url = ''data:b'', width = Fin 25, height = Fin 25\<rparr>,
              \<lparr>url = ''data:image/png;base64,AAAA'', width = Fin 25, height = Fin 25\<rparr>],
      right = [\<lparr>url = ''data:c'', width = Fin 25, height = Fin 25\<rparr>]\<rparr>
 \<and> handleImageUpload sample_reader Left
      (Some [\<lparr>type = ''image/png'', content = ''AAAA''\<rparr>,
             \<lparr>type = ''image/png'', content = ''BBBB''\<rparr>,
             \<lparr>type = ''image/jpeg'', content = ''CCCC''\<rparr>]) sample_state
   = handleImageUpload (\<lambda>file. if content file = ''AAAA'' then sample_reader file else None) Left
      (Some [\<lparr>type = ''image/png'', content = ''AAAA''\<rparr>]) sample_state
 \<and> handleImageUpload sample_reader Left
      (Some [\<lparr>type = ''image/jpeg'', content = ''CCCC''\<rparr>,
             \<lparr>type = ''image/png'', content = ''AAAA''\<rparr>,
             \<lparr>type = ''image/png'', content = ''BBBB''\<rparr>]) sample_state
   = sample_state"
proof -
  let ?a = "\<lparr>type = ''image/png'', content = ''AAAA''\<rparr>"
  let ?b = "\<lparr>type = ''image/png'', content = ''BBBB''\<rparr>"
  let ?c = "\<lparr>type = ''image/jpeg'', content = ''CCCC''\<rparr>"
  let ?rd' = "\<lambda>file. if content file = ''AAAA'' then sample_reader file else None"
  have e: "sample_reader ?a = ?rd' ?a" by simp
  note png = handleImageUpload_first_file_only
      [where rd = sample_reader and rd' = "?rd'" and f = "?a" and eye = Left
         and rest = "[?b, ?c]" and st = sample_state, OF e]
  note jpeg = handleImageUpload_first_file_only
      [where rd = sample_reader and rd' = sample_reader and f = "?c" and eye = Left
         and rest = "[?a, ?b]" and st = sample_state, OF refl]
  have 1: "handleImageUpload sample_reader Left (Some [?a, ?b, ?c]) sample_state
      = onload Left (sample_reader ?a) sample_state"
    using png by simp
  have 2: "onload Left (sample_reader ?a) sample_state
      = \<lparr>left = [\<lparr>url = ''data:a'', width = Fin 25, height = Fin 25\<rparr>,
                 \<lparr>url = ''data:b'', width = Fin 25, height = Fin 25\<rparr>,
                 \<lparr>url = ''data:image/png;base64,AAAA'', width = Fin 25, height = Fin 25\<rparr>],
         right = [\<lparr>url = ''data:c'', width = Fin 25, height = Fin 25\<rparr>]\<rparr>"
    by (simp add: onload_def sample_reader_def sample_state_def)
  have 3: "handleImageUpload sample_reader Left (Some [?a, ?b, ?c]) sample_state
      = handleImageUpload ?rd' Left (Some [?a]) sample_state"
    using png by blast
  have 4: "handleImageUpload sample_reader Left (Some [?c, ?a, ?b]) sample_state = sample_state"
    using jpeg by simp
  from 1 2 3 4 show ?thesis by simp
qed

subsection \<open>Remove\<close>

text \<open>
  C6. For every side and index: if the index is within the bounds of the list of that
  side, \<open>remove\<close> deletes exactly the record at that position, every later record
  moving down by one position, contents and relative order kept; if the index is out
  of bounds, \<open>remove\<close> leaves the list (and the state) unchanged.
\<close>

theorem handleRemoveImage_removes:
  "(0 \<le> index \<and> index < int (length (get_eye st eye)) \<longrightarrow>
      (let xs = get_eye st eye;
           ys = get_eye (handleRemoveImage eye index st) eye;
           k = nat index
       in ys = take k xs @ drop (Suc k) xs
        \<and> length ys = length xs - 1
        \<and> (\<forall>j < k. ys ! j = xs ! j)
        \<and> (\<forall>j. k \<le> j \<and> j < length ys \<longrightarrow> ys ! j = xs ! Suc j)
        \<and> get_eye (handleRemoveImage eye index st) (other eye) = get_eye st (other eye)))
 \<and> (index < 0 \<or> int (length (get_eye st eye)) \<le> index \<longrightarrow>
      handleRemoveImage eye index st = st)"
proof (intro conjI impI)
  assume inb: "0 \<le> index \<and> index < int (length (get_eye st eye))"
  let ?xs = "get_eye st eye"
  let ?k = "nat index"
  have k: "?k < length ?xs" and ik: "index = int ?k"
    using inb by (simp_all add: nat_less_iff)
  have ys: "get_eye (handleRemoveImage eye index st) eye = take ?k ?xs @ drop (Suc ?k) ?xs"
    using Array_filter_in [OF k] ik by (simp add: handleRemoveImage_eye)
  have len: "length (take ?k ?xs @ drop (Suc ?k) ?xs) = length ?xs - 1"
    using k by simp
  have low: "\<forall>j < ?k. (take ?k ?xs @ drop (Suc ?k) ?xs) ! j = ?xs ! j"
    using k by (simp add: nth_append)
  have high: "\<forall>j. ?k \<le> j \<and> j < length (take ?k ?xs @ drop (Suc ?k) ?xs) \<longrightarrow>
      (take ?k ?xs @ drop (Suc ?k) ?xs) ! j = ?xs ! Suc j"
    using k by (auto simp: nth_append min_def)
  show "let xs = ?xs; ys = get_eye (handleRemoveImage eye index st) eye; k = ?k
        in ys = take k xs @ drop (Suc k) xs
         \<and> length ys = length xs - 1
         \<and> (\<forall>j < k. ys ! j = xs ! j)
         \<and> (\<forall>j. k \<le> j \<and> j < length ys \<longrightarrow> ys ! j = xs ! Suc j)
         \<and> get_eye (handleRemoveImage eye index st) (other eye) = get_eye st (other eye)"
    unfolding Let_def ys using len low high by (simp only: handleRemoveImage_other simp_thms)
next
  assume "index < 0 \<or> int (length (get_eye st eye)) \<le> index"
  then have "Array_filter (\<lambda>_ i. int i \<noteq> index) (get_eye st eye) = get_eye st eye"
    by (rule Array_filter_out)
  then show "handleRemoveImage eye index st = st"
    by (simp add: handleRemoveImage_def set_eye_get_eye)
qed

theorem handleRemoveImage_removes_witness:
  "handleRemoveImage Left 0 sample_state =
     \<lparr>left = [\<lparr>url = ''data:b'', width = Fin 25, height = Fin 25\<rparr>],
      right = [\<lparr>url = ''data:c'', width = Fin 25, height = Fin 25\<rparr>]\<rparr>
 \<and> handleRemoveImage Left 2 sample_state = sample_state
 \<and> handleRemoveImage Left (- 1) sample_state = sample_state"
proof -
  have 1: "get_eye (handleRemoveImage Left 0 sample_state) Left
      = [\<lparr>url = ''data:b'', width = Fin 25, height = Fin 25\<rparr>]"
    and 2: "get_eye (handleRemoveImage Left 0 sample_state) (other Left)
      = [\<lparr>url = ''data:c'', width = Fin 25, height = Fin 25\<rparr>]"
    using handleRemoveImage_removes [of 0 sample_state Left]
    by (simp_all add: Let_def sample_state_def)
  have 3: "handleRemoveImage Left 2 sample_state = sample_state"
    using handleRemoveImage_removes [of 2 sample_state Left]
    by (simp add: sample_state_def)
  have 4: "handleRemoveImage Left (- 1) sample_state = sample_state"
    using handleRemoveImage_removes [of "- 1" sample_state Left]
    by simp
  from 1 2 3 4 show ?thesis
    by (cases "handleRemoveImage Left 0 sample_state") simp
qed

subsection \<open>Resize\<close>

text \<open>
  C5. For every side, index within the bounds of the list of that side, dimension and
  input string: if the string parses as a number above 0, \<open>resize\<close> sets that
  dimension of that record to the number and changes nothing else (the other
  dimension and the data URI of the record, every other record of the side, and the
  whole list of the other side are unchanged); if the parse fails or the number is at
  most 0, the whole state is unchanged.
\<close>

theorem handleSizeChange_frame:
  assumes "0 \<le> index" and "index < int (length (get_eye st eye))"
  shows "(num_less (Fin 0) (pf v) \<longrightarrow>
           (let st' = handleSizeChange pf eye index d v st;
                old = get_eye st eye ! nat index;
                new = get_eye st' eye ! nat index
            in get_eye st' eye = (get_eye st eye)[nat index := set_dimension old d (pf v)]
             \<and> get_dimension new d = pf v
             \<and> (\<forall>d'. d' \<noteq> d \<longrightarrow> get_dimension new d' = get_dimension old d')
             \<and> url new = url old
             \<and> length (get_eye st' eye) = length (get_eye st eye)
             \<and> (\<forall>j < length (get_eye st eye). j \<noteq> nat index \<longrightarrow>
                   get_eye st' eye ! j = get_eye st eye ! j)
             \<and> get_eye st' (other eye) = get_eye st (other eye)))
       \<and> (isNaN (pf v) \<or> num_le (pf v) (Fin 0) \<longrightarrow> handleSizeChange pf eye index d v st = st)"
proof (intro conjI impI)
  assume pos: "num_less (Fin 0) (pf v)"
  let ?xs = "get_eye st eye"
  let ?st' = "handleSizeChange pf eye index d v st"
  have k: "nat index < length ?xs"
    using assms by (simp add: nat_less_iff)
  have upd: "get_eye ?st' eye = ?xs[nat index := set_dimension (?xs ! nat index) d (pf v)]"
    and oth: "get_eye ?st' (other eye) = get_eye st (other eye)"
    using handleSizeChange_in_bounds [where pf = pf and v = v, OF assms pos] by simp_all
  have new: "get_eye ?st' eye ! nat index = set_dimension (?xs ! nat index) d (pf v)"
    using k by (simp add: upd)
  show "let st' = ?st'; old = ?xs ! nat index; new = get_eye st' eye ! nat index
        in get_eye st' eye = ?xs[nat index := set_dimension old d (pf v)]
         \<and> get_dimension new d = pf v
         \<and> (\<forall>d'. d' \<noteq> d \<longrightarrow> get_dimension new d' = get_dimension old d')
         \<and> url new = url old
         \<and> length (get_eye st' eye) = length ?xs
         \<and> (\<forall>j < length ?xs. j \<noteq> nat index \<longrightarrow> get_eye st' eye ! j = ?xs ! j)
         \<and> get_eye st' (other eye) = get_eye st (other eye)"
    unfolding Let_def new
    by (simp add: upd oth get_set_dimension get_set_dimension_other url_set_dimension)
next
  assume "isNaN (pf v) \<or> num_le (pf v) (Fin 0)"
  then show "handleSizeChange pf eye index d v st = st"
    by (rule handleSizeChange_rejected)
qed

theorem handleSizeChange_frame_witness:
  "handleSizeChange sample_parseFloat Left 1 Height ''30.5'' sample_state =
     \<lparr>left = [\<lparr>url = ''data:a'', width = Fin 25, height = Fin 25\<rparr>,
              \<lparr>url = ''data:b'', width = Fin 25, height = Fin 30.5\<rparr>],
      right = [\<lparr>url = ''data:c'', width = Fin 25, height = Fin 25\<rparr>]\<rparr>
 \<and> handleSizeChange sample_parseFloat Left 1 Height ''-1'' sample_state = sample_state
 \<and> handleSizeChange sample_parseFloat Left 1 Height ''abc'' sample_state = sample_state"
proof -
  have b: "(0::int) \<le> 1" "(1::int) < int (length (get_eye sample_state Left))"
    by (simp_all add: sample_state_def)
  have p: "num_less (Fin 0) (sample_parseFloat ''30.5'')"
    and n: "isNaN (sample_parseFloat ''-1'') \<or> num_le (sample_parseFloat ''-1'') (Fin 0)"
    and a: "isNaN (sample_parseFloat ''abc'') \<or> num_le (sample_parseFloat ''abc'') (Fin 0)"
    by (simp_all add: sample_parseFloat_def)
  note f = handleSizeChange_frame [where pf = sample_parseFloat, OF b]
  have 1: "get_eye (handleSizeChange sample_parseFloat Left 1 Height ''30.5'' sample_state) Left
      = [\<lparr>url = ''data:a'', width = Fin 25, height = Fin 25\<rparr>,
         \<lparr>url = ''data:b'', width = Fin 25, height = Fin 30.5\<rparr>]"
    and 2: "get_eye (handleSizeChange sample_parseFloat Left 1 Height ''30.5'' sample_state)
        (other Left)
      = [\<lparr>url = ''data:c'', width = Fin 25, height = Fin 25\<rparr>]"
    using f [of "''30.5''" Height] p
    by (simp_all add: Let_def sample_state_def sample_parseFloat_def)
  have 3: "handleSizeChange sample_parseFloat Left 1 Height ''-1'' sample_state = sample_state"
    using f [of "''-1''" Height] n by simp
  have 4: "handleSizeChange sample_parseFloat Left 1 Height ''abc'' sample_state = sample_state"
    using f [of "''abc''" Height] a by simp
  from 1 2 3 4 show ?thesis
    by (cases "handleSizeChange sample_parseFloat Left 1 Height ''30.5'' sample_state") simp
qed

text \<open>
  C9. For every side, dimension and input string, if the index is outside the bounds
  of the list of that side, \<open>resize\<close> leaves the whole image set unchanged (the
  lists of both sides are equal to what they were), also when the string parses as a
  number above 0.
\<close>

theorem handleSizeChange_out_of_bounds_unchanged:
  assumes "index < 0 \<or> int (length (get_eye st eye)) \<le> index"
  shows "handleSizeChange pf eye index d v st = st
       \<and> left (handleSizeChange pf eye index d v st) = left st
       \<and> right (handleSizeChange pf eye index d v st) = right st"
  using handleSizeChange_outside [OF assms] by simp

theorem handleSizeChange_out_of_bounds_unchanged_witness:
  "handleSizeChange sample_parseFloat Right 1 Width ''30.5'' sample_state = sample_state
 \<and> handleSizeChange sample_parseFloat Right (- 1) Width ''30.5'' sample_state = sample_state
 \<and> num_less (Fin 0) (sample_parseFloat ''30.5'')"
proof -
  have "(1::int) < 0 \<or> int (length (get_eye sample_state Right)) \<le> 1"
    and "(- 1::int) < 0 \<or> int (length (get_eye sample_state Right)) \<le> - 1"
    by (simp_all add: sample_state_def)
  then show ?thesis
    using handleSizeChange_out_of_bounds_unchanged
        [of 1 sample_state Right sample_parseFloat Width "''30.5''"]
      handleSizeChange_out_of_bounds_unchanged
        [of "- 1" sample_state Right sample_parseFloat Width "''30.5''"]
    by (simp add: sample_parseFloat_def)
qed

subsection \<open>The invariant\<close>

text \<open>
  C4. In every state reached from the initial empty state by any sequence of uploads
  (as they complete), removals and resizes, every image record on both sides has a
  width above 0 and a height above 0; a resize with a value that does not parse, or
  that is at most 0, leaves the state as it was.
\<close>

theorem reachable_images_positive:
  "(\<forall>eye. \<forall>img \<in> set (get_eye (run pf evs) eye).
       num_less (Fin 0) (width img) \<and> num_less (Fin 0) (height img))
 \<and> (isNaN (pf v) \<or> num_le (pf v) (Fin 0) \<longrightarrow>
       step pf st (Resize eye' index d v) = st)"
proof (intro conjI allI ballI impI)
  fix eye img
  assume "img \<in> set (get_eye (run pf evs) eye)"
  moreover have "list_all positive_image (get_eye (run pf evs) eye)"
    using run_positive [of pf evs] by (simp add: positive_eye)
  ultimately have "positive_image img"
    by (simp add: list_all_iff)
  then show "num_less (Fin 0) (width img)" and "num_less (Fin 0) (height img)"
    by (simp_all add: positive_image_def)
next
  assume "isNaN (pf v) \<or> num_le (pf v) (Fin 0)"
  then show "step pf st (Resize eye' index d v) = st"
    by (simp add: handleSizeChange_rejected)
qed

theorem reachable_images_positive_witness:
  "run sample_parseFloat sample_events =
     \<lparr>left = [\<lparr>url = ''data:image/png;base64,AAAA'', width = Fin 30.5, height = Fin 25\<rparr>],
      right = []\<rparr>
 \<and> num_less (Fin 0) (width (hd (left (run sample_parseFloat sample_events))))
 \<and> num_less (Fin 0) (height (hd (left (run sample_parseFloat sample_events))))
 \<and> step sample_parseFloat sample_state (Resize Left 0 Width ''0'') = sample_state"
proof -
  have r: "run sample_parseFloat sample_events =
     \<lparr>left = [\<lparr>url = ''data:image/png;base64,AAAA'', width = Fin 30.5, height = Fin 25\<rparr>],
      right = []\<rparr>"
    by (simp add: run_def sample_events_def initial_def handleImageUpload_def onload_def
        handleSizeChange_def sample_parseFloat_def handleRemoveImage_def
        Array_map_def Array_filter_def upt_1)
  have z: "isNaN (sample_parseFloat ''0'') \<or> num_le (sample_parseFloat ''0'') (Fin 0)"
    by (simp add: sample_parseFloat_def)
  have m: "hd (left (run sample_parseFloat sample_events))
      \<in> set (get_eye (run sample_parseFloat sample_events) Left)"
    by (simp add: r)
  show ?thesis
    using reachable_images_positive
      [where pf = sample_parseFloat and evs = sample_events
         and v = "''0''" and st = sample_state and eye' = Left and index = 0 and d = Width] z m r
    by blast
qed

section \<open>Properties of the resolution and the export\<close>

lemma dpi_onChange_cases:
  "dpi_onChange v =
     (case parseInt v of None \<Rightarrow> 300 | Some n \<Rightarrow> if n = 0 then 300 else max 72 (min 1200 n))"
  by (simp add: dpi_onChange_def or_number_def split: option.splits)

lemma dpi_onChange_range: "72 \<le> dpi_onChange v" "dpi_onChange v \<le> 1200"
  by (simp_all add: dpi_onChange_def)

lemma dpi_after_range: "72 \<le> dpi_after vs \<and> dpi_after vs \<le> 1200"
proof (induction vs rule: rev_induct)
  case Nil
  show ?case by (simp add: dpi_after_def)
next
  case (snoc v vs)
  show ?case using dpi_onChange_range [of v] by (simp add: dpi_after_def)
qed

lemmas parseInt_eval =
  parseInt_def isStrWhiteSpaceChar_def isRadixDigit_def digitValue_def mathInt_def

lemma parseInt_digits:
  "parseInt ''50'' = Some 50" "parseInt ''5000'' = Some 5000" "parseInt ''0'' = Some 0"
  "parseInt ''150'' = Some 150"
  by (simp_all add: parseInt_eval)

lemma parseInt_no_digits: "parseInt ''abc'' = None" "parseInt [] = None"
  by (simp_all add: parseInt_eval)

text \<open>
  C3, as the code has it. For every input string, the handler parses it as an
  integer; if the parse fails, or if the integer parsed is 0, the resulting DPI is
  300; otherwise it is the integer parsed, clamped into the range from 72 to 1200.
  The result is always in that range. The strings \<open>50\<close>, \<open>5000\<close> and \<open>abc\<close> give
  72, 1200 and 300.
\<close>

theorem dpi_onChange_clamps:
  "dpi_onChange v =
     (case parseInt v of None \<Rightarrow> 300 | Some n \<Rightarrow> if n = 0 then 300 else max 72 (min 1200 n))
 \<and> 72 \<le> dpi_onChange v \<and> dpi_onChange v \<le> 1200
 \<and> dpi_onChange ''50'' = 72
 \<and> dpi_onChange ''5000'' = 1200
 \<and> dpi_onChange ''abc'' = 300"
proof (intro conjI)
  show "dpi_onChange v =
     (case parseInt v of None \<Rightarrow> 300 | Some n \<Rightarrow> if n = 0 then 300 else max 72 (min 1200 n))"
    by (rule dpi_onChange_cases)
  show "72 \<le> dpi_onChange v" and "dpi_onChange v \<le> 1200"
    by (rule dpi_onChange_range)+
  show "dpi_onChange ''50'' = 72"
    by (simp add: dpi_onChange_cases parseInt_digits)
  show "dpi_onChange ''5000'' = 1200"
    by (simp add: dpi_onChange_cases parseInt_digits)
  show "dpi_onChange ''abc'' = 300"
    by (simp add: dpi_onChange_cases parseInt_no_digits)
qed

text \<open>
  C3 as the specification words it (every parsed value is clamped) fails at the
  string \<open>0\<close>: the parse succeeds with 0, whose clamped value is 72, and the handler
  gives 300.
\<close>

theorem dpi_onChange_zero_counterexample:
  "parseInt ''0'' = Some 0
 \<and> dpi_onChange ''0'' = 300
 \<and> dpi_onChange ''0'' \<noteq> max 72 (min 1200 0)"
  by (simp add: dpi_onChange_cases parseInt_digits)



end
